theory Spec2Isabelle
  imports Main
begin

section \<open>The Ethereum engine: block-range scanner and contract invoker\<close>

text \<open>
  A shallow embedding of \<^verbatim>\<open>EthEngine\<close> (the class with \<^verbatim>\<open>scanBlockRange\<close>,
  \<^verbatim>\<open>callFunction\<close> and \<^verbatim>\<open>isMethodPayable\<close>). JavaScript runs one callback at a
  time, so the only nondeterminism of a scan is the order in which the node answers the
  outstanding \<^verbatim>\<open>getBlock\<close> requests; that order is an explicit schedule. The node is a
  record of its answers, and every answer that can fail is a sum with the error on the
  left. Console output (\<^verbatim>\<open>process.stdout.write\<close>) and the wall-clock report are not
  modelled, and the library calls that only compute (\<^verbatim>\<open>fromWei\<close>, the \<^verbatim>\<open>Contract\<close>
  constructor) are taken not to throw, as is the final report, which needs a terminal at
  least as wide as its line; block heights and gas amounts are integers, which the
  numbers of the source are below \<open>2 ^ 53\<close>.
\<close>

subsection \<open>Data\<close>

type_synonym address = string

datatype error = NodeError string | TypeError string

text \<open>\<^verbatim>\<open>enum EthConfirmation { RECEIPT = 0, CONFIRMATION = 1, STATIC = 2 }\<close>: a numeric
  enum, so a confirmation argument is a number at run time.\<close>

definition RECEIPT :: int where "RECEIPT = 0"
definition CONFIRMATION :: int where "CONFIRMATION = 1"
definition STATIC :: int where "STATIC = 2"

text \<open>A transaction as the scanner reads it: \<^verbatim>\<open>txn.from\<close>, \<^verbatim>\<open>txn.to\<close> (null for a
  contract creation) and \<^verbatim>\<open>txn.value\<close>.\<close>

record txn =
  txn_from :: address
  txn_to :: "address option"
  txn_value :: nat

text \<open>A block: \<^verbatim>\<open>block.timestamp\<close> and \<^verbatim>\<open>block.transactions\<close>, which the scanner tests
  for presence.\<close>

record block =
  timestamp :: nat
  transactions :: "txn list option"

text \<open>The message pushed on \<^verbatim>\<open>results\<close>, kept as its interpolated parts:
  \<^verbatim>\<open>`\r${block.timestamp} +${ether} from ${txn.from}`\<close> is \<open>Credit\<close> and
  \<^verbatim>\<open>`\r${block.timestamp} -${ether} to ${txn.to}`\<close> is \<open>Debit\<close>. The amount stays in the
  unit of \<^verbatim>\<open>txn.value\<close>; the library conversion \<^verbatim>\<open>fromWei\<close> is not applied.\<close>

datatype transfer =
  Credit nat nat address
| Debit nat nat "address option"

text \<open>An ABI entry as \<^verbatim>\<open>isMethodPayable\<close> reads it: \<^verbatim>\<open>name\<close> (absent on a constructor
  or fallback entry) and \<^verbatim>\<open>constant\<close> (absent when the entry does not carry the field).\<close>

record abi_entry =
  entry_name :: "string option"
  entry_constant :: "bool option"

text \<open>\<^verbatim>\<open>generalParams\<close>: the options object handed to \<^verbatim>\<open>send\<close> or \<^verbatim>\<open>call\<close>.\<close>

record call_options =
  gas :: "int option"
  gasLimit :: "int option"
  txValue :: "int option"
  txFrom :: "address option"

text \<open>\<^verbatim>\<open>contract.methods[name](...params)\<close> on \<^verbatim>\<open>new Contract(abi, address)\<close>.\<close>

record contract_method =
  m_abi :: "abi_entry list"
  m_address :: "address option"
  m_name :: string
  m_params :: "string list"

record receipt =
  transactionHash :: string
  confNumber :: "nat option"

text \<open>What a \<^verbatim>\<open>send\<close> emits over time, in order: \<^verbatim>\<open>"receipt"\<close> events,
  \<^verbatim>\<open>"confirmation"\<close> events with their number, or a failure.\<close>

datatype send_event = OnReceipt receipt | OnConfirmation nat receipt | OnError error

text \<open>The requests an invocation makes to the node, as a trace.\<close>

datatype node_request =
  GetCode address
| EstimateGas "string option" "address option"
| Call contract_method call_options
| Send contract_method call_options

datatype result = Receipt receipt | ReturnValue string

text \<open>The promise \<^verbatim>\<open>callFunction\<close> returns: resolved, rejected, or never settled.\<close>

datatype outcome = Resolved result | Rejected error | Pending

text \<open>
  The node connection: \<^verbatim>\<open>web3.defaultAccount\<close>, \<^verbatim>\<open>web3.eth.getBlockNumber()\<close>,
  \<^verbatim>\<open>web3.eth.getBlock(height, true, cb)\<close>, whose callback receives either an error or,
  without an error, the block, which is \<^verbatim>\<open>null\<close> (\<open>None\<close>) for a height the node does
  not hold, \<^verbatim>\<open>web3.eth.getCode\<close>, \<^verbatim>\<open>web3.eth.estimateGas({data, to})\<close>, the construction
  of a method object (\<open>methods\<close> gives the exception it throws, if any), and the
  method's \<^verbatim>\<open>call\<close> and \<^verbatim>\<open>send\<close>.
\<close>

record web3 =
  defaultAccount :: address
  getBlockNumber :: "error + int"
  getBlock :: "int \<Rightarrow> error + block option"
  getCode :: "address \<Rightarrow> error + string"
  estimateGas :: "string option \<Rightarrow> address option \<Rightarrow> error + int"
  methods :: "contract_method \<Rightarrow> error option"
  methodCall :: "contract_method \<Rightarrow> call_options \<Rightarrow> error + string"
  methodSend :: "contract_method \<Rightarrow> call_options \<Rightarrow> send_event list"

text \<open>The fields of the engine that \<^verbatim>\<open>callFunction\<close> reads: \<^verbatim>\<open>this.abiConfiguration\<close>
  (the constructor allows it to be absent) and its property \<^verbatim>\<open>defaultWallet\<close>,
  \<^verbatim>\<open>this.configuration.defaultWallet\<close>, \<^verbatim>\<open>this.configuration.contractAddress\<close> and
  \<^verbatim>\<open>this.bin.code\<close>.\<close>

record engine =
  abiConfiguration :: "abi_entry list option"
  abiConfiguration_defaultWallet :: "address option"
  configuration_defaultWallet :: "address option"
  configuration_contractAddress :: "address option"
  bin_code :: "string option"

text \<open>\<^verbatim>\<open>private maxThreads = 20\<close>\<close>

definition maxThreads :: nat where "maxThreads = 20"

subsection \<open>The scanner\<close>

text \<open>
  The variables the closures of one \<^verbatim>\<open>scanBlockRange\<close> call share: \<open>blockNumber\<close>,
  \<open>gotError\<close>, \<open>numThreads\<close> and the \<open>results\<close> array. A worker is one chain of
  callbacks started by one iteration of the spawning loop, named by that iteration's
  \<^verbatim>\<open>nt\<close>. \<open>inflight\<close> holds the \<^verbatim>\<open>getBlock\<close> requests not yet answered, \<open>fetched\<close>
  logs every request issued, in order, each with the worker that issued it. \<open>promise\<close> is
  \<open>None\<close> while the returned promise is pending and holds the content of \<open>results\<close> at
  the first \<^verbatim>\<open>resolve(results)\<close> afterwards (later calls of \<^verbatim>\<open>resolve\<close> have no
  effect). \<open>callbacks\<close> logs the calls \<^verbatim>\<open>callback(gotError, stoppingBlock)\<close>.
\<close>

record scan_state =
  blockNumber :: int
  gotError :: bool
  numThreads :: int
  results :: "transfer list"
  inflight :: "(nat \<times> int) list"
  fetched :: "(nat \<times> int) list"
  promise :: "transfer list option"
  callbacks :: "(bool \<times> int) list"

definition initial :: scan_state where
  "initial = \<lparr>blockNumber = 0, gotError = False, numThreads = 0, results = [],
     inflight = [], fetched = [], promise = None, callbacks = []\<rparr>"

text \<open>Lines 230 to 236: the two defaults. \<^verbatim>\<open>if (!stoppingBlock)\<close> and
  \<^verbatim>\<open>if (!startingBlock)\<close> hold for \<^verbatim>\<open>undefined\<close> and for \<^verbatim>\<open>0\<close>. A failing
  \<^verbatim>\<open>getBlockNumber\<close> throws inside the promise executor.\<close>

definition resolveHeights :: "web3 \<Rightarrow> int option \<Rightarrow> int option \<Rightarrow> error + (int \<times> int)" where
  "resolveHeights w3 startingBlock stoppingBlock =
     (case (case stoppingBlock of
              None \<Rightarrow> getBlockNumber w3
            | Some n \<Rightarrow> if n = 0 then getBlockNumber w3 else Inr n) of
        Inl e \<Rightarrow> Inl e
      | Inr stop \<Rightarrow>
          Inr (case startingBlock of
                 None \<Rightarrow> stop - 10
               | Some n \<Rightarrow> if n = 0 then stop - 10 else n,
               stop))"

definition scanTransactionCallback :: "web3 \<Rightarrow> txn \<Rightarrow> block \<Rightarrow> scan_state \<Rightarrow> scan_state" where
  "scanTransactionCallback w3 t b s =
     (if txn_to t = Some (defaultAccount w3)
      then s\<lparr>results := results s @ [Credit (timestamp b) (txn_value t) (txn_from t)]\<rparr>
      else if txn_from t = defaultAccount w3
      then s\<lparr>results := results s @ [Debit (timestamp b) (txn_value t) (txn_to t)]\<rparr>
      else s)"

text \<open>\<^verbatim>\<open>scanBlockCallback(block)\<close>: reading \<^verbatim>\<open>block.transactions\<close> throws when the block is
  \<^verbatim>\<open>null\<close>.\<close>

definition scanBlockCallback :: "web3 \<Rightarrow> block option \<Rightarrow> scan_state \<Rightarrow> error + scan_state" where
  "scanBlockCallback w3 block s =
     (case block of
        None \<Rightarrow> Inl (TypeError ''Cannot read property transactions of null'')
      | Some b \<Rightarrow>
          (case transactions b of
             None \<Rightarrow> Inr s
           | Some ts \<Rightarrow> Inr (fold (\<lambda>t. scanTransactionCallback w3 t b) ts s)))"

text \<open>\<^verbatim>\<open>exitThread\<close>: the decrement, the report to \<^verbatim>\<open>callback\<close> when the counter reaches
  zero (the flag \<open>callback\<close> says whether the caller passed one), and, outside that test,
  \<^verbatim>\<open>resolve(results)\<close>.\<close>

definition exitThread :: "int \<Rightarrow> bool \<Rightarrow> scan_state \<Rightarrow> scan_state" where
  "exitThread stoppingBlock callback s =
     (let s1 = s\<lparr>numThreads := numThreads s - 1\<rparr>;
          s2 = (if numThreads s1 = 0 \<and> callback
                then s1\<lparr>callbacks := callbacks s1 @ [(gotError s1, stoppingBlock)]\<rparr>
                else s1)
      in s2\<lparr>promise := (case promise s2 of None \<Rightarrow> Some (results s2) | Some r \<Rightarrow> Some r)\<rparr>)"

text \<open>\<^verbatim>\<open>asyncScanNextBlock\<close> up to the call of \<^verbatim>\<open>getBlock\<close>: the two exits, then the
  claim \<^verbatim>\<open>myBlockNumber = blockNumber++\<close> and the request.\<close>

definition asyncScanNextBlock :: "int \<Rightarrow> bool \<Rightarrow> nat \<Rightarrow> scan_state \<Rightarrow> scan_state" where
  "asyncScanNextBlock stoppingBlock callback worker s =
     (if gotError s then exitThread stoppingBlock callback s
      else if blockNumber s > stoppingBlock then exitThread stoppingBlock callback s
      else s\<lparr>blockNumber := blockNumber s + 1,
             inflight := inflight s @ [(worker, blockNumber s)],
             fetched := fetched s @ [(worker, blockNumber s)]\<rparr>)"

text \<open>The callback given to \<^verbatim>\<open>getBlock\<close>, run when the node answers the request for
  \<open>myBlockNumber\<close>: on an error it sets the flag and does nothing else. When
  \<^verbatim>\<open>scanBlockCallback\<close> throws, nothing catches the exception and the callback ends
  there, before \<^verbatim>\<open>asyncScanNextBlock()\<close>.\<close>

definition getBlockCallback ::
  "web3 \<Rightarrow> int \<Rightarrow> bool \<Rightarrow> nat \<Rightarrow> int \<Rightarrow> scan_state \<Rightarrow> scan_state" where
  "getBlockCallback w3 stoppingBlock callback worker myBlockNumber s =
     (case getBlock w3 myBlockNumber of
        Inl e \<Rightarrow> s\<lparr>gotError := True\<rparr>
      | Inr block \<Rightarrow>
          (case scanBlockCallback w3 block s of
             Inl e \<Rightarrow> s
           | Inr s' \<Rightarrow> asyncScanNextBlock stoppingBlock callback worker s'))"

text \<open>One turn of the event loop: the node answers one outstanding request, number
  \<open>i mod length (inflight s)\<close> in the order of issue; with nothing outstanding nothing
  happens.\<close>

definition answer :: "web3 \<Rightarrow> int \<Rightarrow> bool \<Rightarrow> nat \<Rightarrow> scan_state \<Rightarrow> scan_state" where
  "answer w3 stoppingBlock callback i s =
     (if inflight s = [] then s
      else let k = i mod length (inflight s);
               r = inflight s ! k
           in getBlockCallback w3 stoppingBlock callback (fst r) (snd r)
                (s\<lparr>inflight := take k (inflight s) @ drop (Suc k) (inflight s)\<rparr>))"

fun eventLoop :: "web3 \<Rightarrow> int \<Rightarrow> bool \<Rightarrow> nat list \<Rightarrow> scan_state \<Rightarrow> scan_state" where
  "eventLoop w3 stoppingBlock callback [] s = s"
| "eventLoop w3 stoppingBlock callback (i # sched) s =
     eventLoop w3 stoppingBlock callback sched (answer w3 stoppingBlock callback i s)"

text \<open>The spawning loop
  \<^verbatim>\<open>for (nt = 0; nt < maxThreads && startingBlock + nt <= stoppingBlock; nt++)\<close>.\<close>

function spawn :: "int \<Rightarrow> int \<Rightarrow> bool \<Rightarrow> nat \<Rightarrow> scan_state \<Rightarrow> scan_state" where
  "spawn startingBlock stoppingBlock callback nt s =
     (if nt < maxThreads \<and> startingBlock + int nt \<le> stoppingBlock
      then spawn startingBlock stoppingBlock callback (Suc nt)
             (asyncScanNextBlock stoppingBlock callback nt (s\<lparr>numThreads := numThreads s + 1\<rparr>))
      else s)"
  by pat_completeness auto
termination
  by (relation "measure (\<lambda>(a, b, c, nt, s). maxThreads - nt)") auto

text \<open>
  \<^verbatim>\<open>scanBlockRange(startingBlock, stoppingBlock, callback)\<close> followed by the answers of
  the node in the order \<open>sched\<close>. When \<^verbatim>\<open>getBlockNumber\<close> fails, and when the executor
  leaves by \<^verbatim>\<open>return -1\<close>, no worker has been started and the promise stays pending.
\<close>

definition scanBlockRange ::
  "web3 \<Rightarrow> int option \<Rightarrow> int option \<Rightarrow> bool \<Rightarrow> nat list \<Rightarrow> scan_state" where
  "scanBlockRange w3 startingBlock stoppingBlock callback sched =
     (case resolveHeights w3 startingBlock stoppingBlock of
        Inl e \<Rightarrow> initial
      | Inr (start, stop) \<Rightarrow>
          if start > stop then initial
          else eventLoop w3 stop callback sched
                 (spawn start stop callback 0 (initial\<lparr>blockNumber := start\<rparr>)))"

subsection \<open>The invoker\<close>

text \<open>\<^verbatim>\<open>for (const i in abi)\<close> visits the indices of an array in order and nothing when
  \<^verbatim>\<open>abi\<close> is \<^verbatim>\<open>undefined\<close>.\<close>

definition forIn :: "'a list option \<Rightarrow> 'a list" where
  "forIn abi = (case abi of None \<Rightarrow> [] | Some es \<Rightarrow> es)"

text \<open>\<^verbatim>\<open>isMethodPayable\<close>: \<^verbatim>\<open>if (abi[i].name === name) return !abi[i].constant;\<close> in the
  loop, \<^verbatim>\<open>return false\<close> after it.\<close>

fun isMethodPayable :: "string \<Rightarrow> abi_entry list \<Rightarrow> bool" where
  "isMethodPayable nm [] = False"
| "isMethodPayable nm (e # abi) =
     (if entry_name e = Some nm
      then (case entry_constant e of None \<Rightarrow> True | Some c \<Rightarrow> \<not> c)
      else isMethodPayable nm abi)"

text \<open>\<^verbatim>\<open>.on("receipt", rec => resolve(rec)).catch(err => reject(err))\<close>: the first receipt
  or failure settles the promise.\<close>

fun awaitReceipt :: "send_event list \<Rightarrow> outcome" where
  "awaitReceipt [] = Pending"
| "awaitReceipt (OnReceipt rec # es) = Resolved (Receipt rec)"
| "awaitReceipt (OnError err # es) = Rejected err"
| "awaitReceipt (OnConfirmation n rec # es) = awaitReceipt es"

text \<open>\<^verbatim>\<open>.on("confirmation", (confNumber, receipt) => { receipt.confNumber = confNumber;
  resolve(receipt); })\<close> with the same \<^verbatim>\<open>catch\<close>.\<close>

fun awaitConfirmation :: "send_event list \<Rightarrow> outcome" where
  "awaitConfirmation [] = Pending"
| "awaitConfirmation (OnConfirmation n rec # es) = Resolved (Receipt (rec\<lparr>confNumber := Some n\<rparr>))"
| "awaitConfirmation (OnError err # es) = Rejected err"
| "awaitConfirmation (OnReceipt rec # es) = awaitConfirmation es"

text \<open>Lines 130 to 165: the method object is built inside \<^verbatim>\<open>try\<close>, then the
  \<^verbatim>\<open>switch\<close> on the confirmation mode, which has no default case.\<close>

definition dispatch ::
  "web3 \<Rightarrow> contract_method \<Rightarrow> call_options \<Rightarrow> int \<Rightarrow> node_request list \<times> outcome" where
  "dispatch w3 m generalParams confirmation =
     (case methods w3 m of
        Some e \<Rightarrow> ([], Rejected e)
      | None \<Rightarrow>
          if confirmation = RECEIPT
          then ([Send m generalParams], awaitReceipt (methodSend w3 m generalParams))
          else if confirmation = CONFIRMATION
          then ([Send m generalParams], awaitConfirmation (methodSend w3 m generalParams))
          else if confirmation = STATIC
          then ([Call m generalParams],
                case methodCall w3 m generalParams of
                  Inl err \<Rightarrow> Rejected err
                | Inr r \<Rightarrow> Resolved (ReturnValue r))
          else ([], Pending))"

text \<open>The \<^verbatim>\<open>else\<close> branch of line 110: the engine's own contract. Reading
  \<^verbatim>\<open>this.abiConfiguration.defaultWallet\<close> throws when the engine has no ABI.\<close>

definition bound ::
  "engine \<Rightarrow>
   node_request list \<times> (error + (string option \<times> (abi_entry list \<times> address option) \<times> address option))" where
  "bound eng =
     (case abiConfiguration eng of
        None \<Rightarrow> ([], Inl (TypeError ''Cannot read property defaultWallet of undefined''))
      | Some a \<Rightarrow>
          ([], Inr (bin_code eng, (a, configuration_contractAddress eng),
                    abiConfiguration_defaultWallet eng)))"

text \<open>Lines 105 to 121: \<open>code\<close>, \<open>contract\<close> and \<open>defaultWallet\<close>.
  \<^verbatim>\<open>if (abi && contractAddress)\<close> holds for any array and any non-empty string.\<close>

definition prepare ::
  "engine \<Rightarrow> web3 \<Rightarrow> bool \<Rightarrow> abi_entry list option \<Rightarrow> address option \<Rightarrow>
   node_request list \<times> (error + (string option \<times> (abi_entry list \<times> address option) \<times> address option))" where
  "prepare eng w3 payable abi contractAddress =
     (case abi of
        None \<Rightarrow> bound eng
      | Some a \<Rightarrow>
          (case contractAddress of
             None \<Rightarrow> bound eng
           | Some addr \<Rightarrow>
               if addr = [] then bound eng
               else if payable
               then (case getCode w3 addr of
                       Inl e \<Rightarrow> ([GetCode addr], Inl e)
                     | Inr code \<Rightarrow>
                         ([GetCode addr],
                          Inr (Some code, (a, Some addr), configuration_defaultWallet eng)))
               else ([], Inr (None, (a, Some addr), configuration_defaultWallet eng))))"

text \<open>Line 108:
  \<^verbatim>\<open>this.isMethodPayable(name, abi === undefined ? this.abiConfiguration : abi)\<close>.\<close>

definition payable :: "engine \<Rightarrow> string \<Rightarrow> abi_entry list option \<Rightarrow> bool" where
  "payable eng nm abi =
     isMethodPayable nm (forIn (case abi of None \<Rightarrow> abiConfiguration eng | Some a \<Rightarrow> Some a))"

text \<open>Lines 123 to 128: the estimate, asked only when \<^verbatim>\<open>generalParams.gas\<close> is undefined
  and the method is payable, and the two fields it sets.\<close>

definition estimate ::
  "web3 \<Rightarrow> bool \<Rightarrow> string option \<Rightarrow> address option \<Rightarrow> call_options \<Rightarrow>
   node_request list \<times> (error + call_options)" where
  "estimate w3 pay code defaultWallet generalParams =
     (if gas generalParams = None \<and> pay
      then (case estimateGas w3 code defaultWallet of
              Inl e \<Rightarrow> ([EstimateGas code defaultWallet], Inl e)
            | Inr ets \<Rightarrow>
                ([EstimateGas code defaultWallet],
                 Inr (generalParams\<lparr>gas := Some ets, gasLimit := Some (ets * 2)\<rparr>)))
      else ([], Inr generalParams))"

text \<open>
  \<^verbatim>\<open>callFunction(name, params, generalParams, confirmation?, abi?, contractAddress?)\<close>:
  the requests made, in order, and how the returned promise ends. A failing \<^verbatim>\<open>await\<close>
  rejects it.
\<close>

definition callFunction ::
  "engine \<Rightarrow> web3 \<Rightarrow> string \<Rightarrow> string list \<Rightarrow> call_options \<Rightarrow> int option \<Rightarrow>
   abi_entry list option \<Rightarrow> address option \<Rightarrow> node_request list \<times> outcome" where
  "callFunction eng w3 nm params generalParams confirmation abi contractAddress =
     (let confirmation' = (case confirmation of None \<Rightarrow> 0 | Some c \<Rightarrow> c)
      in case prepare eng w3 (payable eng nm abi) abi contractAddress of
           (tr, Inl e) \<Rightarrow> (tr, Rejected e)
         | (tr, Inr (code, contract, defaultWallet)) \<Rightarrow>
             (case estimate w3 (payable eng nm abi) code defaultWallet generalParams of
                (tr', Inl e) \<Rightarrow> (tr @ tr', Rejected e)
              | (tr', Inr generalParams') \<Rightarrow>
                  (case dispatch w3
                          \<lparr>m_abi = fst contract, m_address = snd contract,
                           m_name = nm, m_params = params\<rparr>
                          generalParams' confirmation' of
                     (tr'', out) \<Rightarrow> (tr @ tr' @ tr'', out))))"

text \<open>Counting the requests of a trace by kind, and the options of those that dispatch
  the method.\<close>

fun isEstimateGas :: "node_request \<Rightarrow> bool" where
  "isEstimateGas (EstimateGas c t) = True"
| "isEstimateGas r = False"

fun isSend :: "node_request \<Rightarrow> bool" where
  "isSend (Send m opts) = True"
| "isSend r = False"

fun isCall :: "node_request \<Rightarrow> bool" where
  "isCall (Call m opts) = True"
| "isCall r = False"

definition countEstimateGas :: "node_request list \<Rightarrow> nat" where
  "countEstimateGas tr = length (filter isEstimateGas tr)"

definition countSend :: "node_request list \<Rightarrow> nat" where
  "countSend tr = length (filter isSend tr)"

definition countCall :: "node_request list \<Rightarrow> nat" where
  "countCall tr = length (filter isCall tr)"

fun dispatched :: "node_request list \<Rightarrow> call_options list" where
  "dispatched [] = []"
| "dispatched (Send m opts # tr) = opts # dispatched tr"
| "dispatched (Call m opts # tr) = opts # dispatched tr"
| "dispatched (r # tr) = dispatched tr"

subsection \<open>Sample inputs\<close>

definition sampleAbi :: "abi_entry list" where
  "sampleAbi =
     [\<lparr>entry_name = None, entry_constant = None\<rparr>,
      \<lparr>entry_name = Some ''deposit'', entry_constant = Some False\<rparr>,
      \<lparr>entry_name = Some ''balanceOf'', entry_constant = Some True\<rparr>,
      \<lparr>entry_name = Some ''deposit'', entry_constant = Some True\<rparr>]"

definition sampleEngine :: engine where
  "sampleEngine =
     \<lparr>abiConfiguration = Some sampleAbi, abiConfiguration_defaultWallet = None,
      configuration_defaultWallet = Some ''0xabc'',
      configuration_contractAddress = Some ''0xc0de'', bin_code = Some ''0x6080''\<rparr>"

definition sampleNode :: web3 where
  "sampleNode =
     \<lparr>defaultAccount = ''0xabc'', getBlockNumber = Inr 500,
      getBlock = (\<lambda>h. Inr (Some \<lparr>timestamp = nat h,
        transactions = Some [\<lparr>txn_from = ''0xdef'', txn_to = Some ''0xabc'', txn_value = 7\<rparr>]\<rparr>)),
      getCode = (\<lambda>a. Inr ''0x6080''),
      estimateGas = (\<lambda>c t. Inr 21000),
      methods = (\<lambda>m. None),
      methodCall = (\<lambda>m opts. Inr ''42''),
      methodSend = (\<lambda>m opts. [OnReceipt \<lparr>transactionHash = ''0xfeed'', confNumber = None\<rparr>,
        OnConfirmation 0 \<lparr>transactionHash = ''0xfeed'', confNumber = None\<rparr>])\<rparr>"

definition noOptions :: call_options where
  "noOptions = \<lparr>gas = None, gasLimit = None, txValue = None, txFrom = None\<rparr>"

text \<open>A node on which every fetch of a block fails.\<close>

definition failingNode :: web3 where
  "failingNode = sampleNode\<lparr>getBlock := (\<lambda>h. Inl (NodeError ''timeout''))\<rparr>"


text \<open>A node that cannot return the bytecode of a contract.\<close>

definition codelessNode :: web3 where
  "codelessNode = sampleNode\<lparr>getCode := (\<lambda>a. Inl (NodeError ''unreachable''))\<rparr>"

subsection \<open>Invariants of a scan\<close>



fun isConfirmation :: "send_event \<Rightarrow> bool" where
  "isConfirmation (OnConfirmation n rec) = True"
| "isConfirmation e = False"


text \<open>While no fetch fails, the log of requests is the interval below the cursor, every
  outstanding request lies in the range, a worker is outstanding as long as heights are
  left, and \<open>m\<close> answers remain until the scan is idle.\<close>

definition scanInv :: "int \<Rightarrow> int \<Rightarrow> nat \<Rightarrow> scan_state \<Rightarrow> bool" where
  "scanInv start stop m s \<longleftrightarrow>
     \<not> gotError s \<and> start \<le> blockNumber s \<and> blockNumber s \<le> stop + 1 \<and>
     map snd (fetched s) = [start..blockNumber s - 1] \<and>
     (blockNumber s \<le> stop \<longrightarrow> inflight s \<noteq> []) \<and>
     list_all (\<lambda>r. start \<le> snd r \<and> snd r \<le> stop) (inflight s) \<and>
     nat (stop + 1 - blockNumber s) + length (inflight s) = m"

text \<open>After \<open>nt\<close> iterations of the spawning loop.\<close>

definition spawnInv :: "int \<Rightarrow> int \<Rightarrow> nat \<Rightarrow> scan_state \<Rightarrow> bool" where
  "spawnInv start stop nt s \<longleftrightarrow>
     \<not> gotError s \<and> blockNumber s = start + int nt \<and> start + int nt \<le> stop + 1 \<and>
     map snd (fetched s) = [start..start + int nt - 1] \<and>
     length (inflight s) = nt \<and> numThreads s = int nt \<and> callbacks s = [] \<and>
     list_all (\<lambda>r. start \<le> snd r \<and> snd r \<le> stop) (inflight s)"

text \<open>Workers and exits: every outstanding request belongs to a worker that has not
  left through \<open>exitThread\<close>; once the error flag is set some worker never leaves; and
  the caller's callback has run only when the counter is zero.\<close>

definition exitInv :: "scan_state \<Rightarrow> bool" where
  "exitInv s \<longleftrightarrow>
     int (length (inflight s)) \<le> numThreads s \<and>
     (gotError s \<longrightarrow> int (length (inflight s)) < numThreads s) \<and>
     (callbacks s \<noteq> [] \<longrightarrow> numThreads s = 0)"

declare spawn.simps [simp del]

section \<open>Properties of the scanner\<close>

lemma answer_idle: "inflight s = [] \<Longrightarrow> answer w3 stop cb i s = s"
  by (simp add: answer_def)

lemma eventLoop_idle: "inflight s = [] \<Longrightarrow> eventLoop w3 stop cb sched s = s"
  by (induction sched) (simp_all add: answer_idle)

lemma scanTransactionCallback_results:
  "\<exists>rs. scanTransactionCallback w3 t b s = s\<lparr>results := rs\<rparr>"
proof (cases "txn_to t = Some (defaultAccount w3)")
  case True
  then show ?thesis by (auto simp: scanTransactionCallback_def)
next
  case False
  show ?thesis
    by (rule exI [of _ "if txn_from t = defaultAccount w3
          then results s @ [Debit (timestamp b) (txn_value t) (txn_to t)] else results s"])
       (simp add: scanTransactionCallback_def False)
qed

lemma fold_scanTransactionCallback_results:
  "\<exists>rs. fold (\<lambda>t. scanTransactionCallback w3 t b) ts s = s\<lparr>results := rs\<rparr>"
proof (induction ts arbitrary: s)
  case Nil
  show ?case by (rule exI [of _ "results s"]) simp
next
  case (Cons t ts)
  obtain r1 where r1: "scanTransactionCallback w3 t b s = s\<lparr>results := r1\<rparr>"
    using scanTransactionCallback_results by blast
  obtain r2 where "fold (\<lambda>t. scanTransactionCallback w3 t b) ts (s\<lparr>results := r1\<rparr>) = s\<lparr>results := r1\<rparr>\<lparr>results := r2\<rparr>"
    using Cons.IH by blast
  with r1 show ?case by auto
qed

lemma scanBlockCallback_results:
  "\<exists>rs. scanBlockCallback w3 (Some b) s = Inr (s\<lparr>results := rs\<rparr>)"
proof (cases "transactions b")
  case None
  show ?thesis by (rule exI [of _ "results s"]) (simp add: scanBlockCallback_def None)
next
  case (Some ts)
  then show ?thesis
    using fold_scanTransactionCallback_results [of w3 b ts s] by (simp add: scanBlockCallback_def)
qed

lemma upto_snoc: "a \<le> b + 1 \<Longrightarrow> [a..b] @ [b + 1] = [a..b + 1]"
  by (simp add: upto_rec2)

lemma scanInv_answer:
  assumes inv: "scanInv start stop m s"
    and busy: "inflight s \<noteq> []"
    and ok: "\<forall>h. start \<le> h \<and> h \<le> stop \<longrightarrow> (\<exists>b. getBlock w3 h = Inr (Some b))"
  shows "\<exists>m'. m = Suc m' \<and> scanInv start stop m' (answer w3 stop cb i s)"
proof -
  define k where "k = i mod length (inflight s)"
  define r where "r = inflight s ! k"
  define s1 where "s1 = s\<lparr>inflight := take k (inflight s) @ drop (Suc k) (inflight s)\<rparr>"
  have k: "k < length (inflight s)" using busy by (simp add: k_def)
  have len: "Suc (length (inflight s1)) = length (inflight s)"
    using k by (simp add: s1_def)
  have rin: "r \<in> set (inflight s)" using k by (simp add: r_def)
  hence range: "start \<le> snd r" "snd r \<le> stop"
    using inv by (auto simp: scanInv_def list_all_iff)
  then obtain b where b: "getBlock w3 (snd r) = Inr (Some b)" using ok by blast
  obtain rs where rs: "scanBlockCallback w3 (Some b) s1 = Inr (s1\<lparr>results := rs\<rparr>)"
    using scanBlockCallback_results by blast
  have all1: "list_all (\<lambda>r. start \<le> snd r \<and> snd r \<le> stop) (inflight s1)"
    using inv by (auto simp: scanInv_def list_all_iff s1_def dest: in_set_takeD in_set_dropD)
  have ans: "answer w3 stop cb i s = asyncScanNextBlock stop cb (fst r) (s1\<lparr>results := rs\<rparr>)"
    using busy b rs by (simp add: answer_def Let_def getBlockCallback_def k_def [symmetric] r_def [symmetric] s1_def [symmetric])
  show ?thesis
  proof (cases "blockNumber s > stop")
    case True
    with inv have bn: "blockNumber s = stop + 1" by (simp add: scanInv_def)
    have "scanInv start stop (length (inflight s1)) (asyncScanNextBlock stop cb (fst r) (s1\<lparr>results := rs\<rparr>))"
      using inv bn all1
      by (simp add: scanInv_def asyncScanNextBlock_def exitThread_def Let_def s1_def)
    moreover have "m = Suc (length (inflight s1))"
      using inv bn len by (simp add: scanInv_def)
    ultimately show ?thesis using ans by simp
  next
    case False
    hence le: "blockNumber s \<le> stop" by simp
    have "scanInv start stop (nat (stop - blockNumber s) + length (inflight s)) (asyncScanNextBlock stop cb (fst r) (s1\<lparr>results := rs\<rparr>))"
      using inv le all1 len upto_snoc [of start "blockNumber s - 1"]
      by (simp add: scanInv_def asyncScanNextBlock_def s1_def)
    moreover have "m = Suc (nat (stop - blockNumber s) + length (inflight s))"
      using inv le by (auto simp: scanInv_def)
    ultimately show ?thesis using ans by simp
  qed
qed


lemma spawnInv_step:
  assumes "spawnInv start stop nt s" "start + int nt \<le> stop"
  shows "spawnInv start stop (Suc nt)
           (asyncScanNextBlock stop cb nt (s\<lparr>numThreads := numThreads s + 1\<rparr>))"
  using assms upto_snoc [of start "start + int nt - 1"]
  by (simp add: spawnInv_def asyncScanNextBlock_def add.commute add.left_commute)

lemma spawn_result:
  "spawnInv start stop nt s \<Longrightarrow> nt \<le> maxThreads \<Longrightarrow>
   \<exists>k. spawnInv start stop k (spawn start stop cb nt s) \<and> nt \<le> k \<and>
       int k = min (int maxThreads) (stop - start + 1)"
proof (induction start stop cb nt s rule: spawn.induct)
  case (1 start stop cb nt s)
  show ?case
  proof (cases "nt < maxThreads \<and> start + int nt \<le> stop")
    case True
    have "spawnInv start stop (Suc nt)
            (asyncScanNextBlock stop cb nt (s\<lparr>numThreads := numThreads s + 1\<rparr>))"
      using spawnInv_step "1.prems"(1) True by blast
    moreover have "Suc nt \<le> maxThreads" using True by simp
    ultimately obtain k where
      "spawnInv start stop k (spawn start stop cb (Suc nt)
          (asyncScanNextBlock stop cb nt (s\<lparr>numThreads := numThreads s + 1\<rparr>)))"
      "Suc nt \<le> k" "int k = min (int maxThreads) (stop - start + 1)"
      using "1.IH" [OF True] by blast
    with True show ?thesis
      by (subst spawn.simps) (auto intro!: exI [of _ k])
  next
    case False
    have eq: "spawn start stop cb nt s = s"
      by (subst spawn.simps) (simp only: False if_False)
    have "int nt = min (int maxThreads) (stop - start + 1)"
      using False "1.prems" by (auto simp: spawnInv_def)
    with eq "1.prems"(1) show ?thesis by auto
  qed
qed

lemma spawnInv_initial: "start \<le> stop + 1 \<Longrightarrow> spawnInv start stop 0 (initial\<lparr>blockNumber := start\<rparr>)"
  by (simp add: spawnInv_def initial_def)




lemma scanInv_eventLoop_any:
  assumes ok: "\<forall>h. start \<le> h \<and> h \<le> stop \<longrightarrow> (\<exists>b. getBlock w3 h = Inr (Some b))"
  shows "scanInv start stop m s \<Longrightarrow> \<exists>m'. scanInv start stop m' (eventLoop w3 stop cb sched s)"
proof (induction sched arbitrary: m s)
  case Nil
  then show ?case by auto
next
  case (Cons i sched)
  show ?case
  proof (cases "inflight s = []")
    case True
    with Cons.prems show ?thesis by (auto simp: answer_idle eventLoop_idle)
  next
    case False
    obtain m' where "scanInv start stop m' (answer w3 stop cb i s)"
      using scanInv_answer [OF Cons.prems False ok, of cb i] by blast
    with Cons.IH [of m' "answer w3 stop cb i s"] show ?thesis by simp
  qed
qed

lemma scan_started:
  assumes "resolveHeights w3 startingBlock stoppingBlock = Inr (start, stop)" "start \<le> stop"
  shows "scanBlockRange w3 startingBlock stoppingBlock cb sched =
           eventLoop w3 stop cb sched (spawn start stop cb 0 (initial\<lparr>blockNumber := start\<rparr>))"
  using assms by (simp add: scanBlockRange_def)



lemma exitThread_frame:
  "fetched (exitThread stop cb s) = fetched s \<and> blockNumber (exitThread stop cb s) = blockNumber s"
  by (simp add: exitThread_def Let_def)










lemma scan_invalid_range:
  "resolveHeights w3 startingBlock stoppingBlock = Inr (start, stop) \<Longrightarrow> stop < start \<Longrightarrow>
   scanBlockRange w3 startingBlock stoppingBlock cb sched = initial"
  by (simp add: scanBlockRange_def)

text \<open>
  Claim C3, evaluated on the code. Called with start 5 and stop 3, the executor leaves
  by \<^verbatim>\<open>return -1\<close>: no block is requested, and the promise is neither resolved nor
  rejected and the callback is not called, however long the caller waits.
\<close>

theorem invalid_range_never_settles:
  "scanBlockRange w3 (Some 5) (Some 3) cb sched = initial \<and>
   promise (scanBlockRange w3 (Some 5) (Some 3) cb sched) = None \<and>
   callbacks (scanBlockRange w3 (Some 5) (Some 3) cb sched) = [] \<and>
   fetched (scanBlockRange w3 (Some 5) (Some 3) cb sched) = []"
proof -
  have "resolveHeights w3 (Some 5) (Some 3) = Inr (5, 3)"
    by (simp add: resolveHeights_def)
  hence "scanBlockRange w3 (Some 5) (Some 3) cb sched = initial"
    by (rule scan_invalid_range) simp
  thus ?thesis by (simp add: initial_def)
qed

lemma spawn_single:
  "spawn 100 100 cb 0 (initial\<lparr>blockNumber := 100\<rparr>) =
     \<lparr>blockNumber = 101, gotError = False, numThreads = 1, results = [],
      inflight = [(0, 100)], fetched = [(0, 100)], promise = None, callbacks = []\<rparr>"
  by (simp add: spawn.simps maxThreads_def asyncScanNextBlock_def initial_def)

text \<open>
  Claim C1, evaluated on the code. A scan of the single height 100 against a node whose
  fetch fails: before the answer and after it the promise is pending and the callback
  has not been called; after the answer the error flag is set, nothing is outstanding
  and the worker counter stays at 1, so nothing is ever returned to the caller.
\<close>

theorem failed_fetch_never_reported:
  "promise (scanBlockRange failingNode (Some 100) (Some 100) cb sched) = None \<and>
   callbacks (scanBlockRange failingNode (Some 100) (Some 100) cb sched) = [] \<and>
   scanBlockRange failingNode (Some 100) (Some 100) cb (i # sched) =
     \<lparr>blockNumber = 101, gotError = True, numThreads = 1, results = [],
      inflight = [], fetched = [(0, 100)], promise = None, callbacks = []\<rparr>"
proof -
  have h: "resolveHeights failingNode (Some 100) (Some 100) = Inr (100, 100)"
    by (simp add: resolveHeights_def)
  have run: "scanBlockRange failingNode (Some 100) (Some 100) cb xs =
      eventLoop failingNode 100 cb xs
        \<lparr>blockNumber = 101, gotError = False, numThreads = 1, results = [],
         inflight = [(0, 100)], fetched = [(0, 100)], promise = None, callbacks = []\<rparr>" for xs
    using scan_started [OF h, of cb xs] by (simp add: spawn_single)
  have one: "answer failingNode 100 cb j
        \<lparr>blockNumber = 101, gotError = False, numThreads = 1, results = [],
         inflight = [(0, 100)], fetched = [(0, 100)], promise = None, callbacks = []\<rparr> =
        \<lparr>blockNumber = 101, gotError = True, numThreads = 1, results = [],
         inflight = [], fetched = [(0, 100)], promise = None, callbacks = []\<rparr>" for j
    by (simp add: answer_def getBlockCallback_def failingNode_def)
  have after: "scanBlockRange failingNode (Some 100) (Some 100) cb (j # xs) =
        \<lparr>blockNumber = 101, gotError = True, numThreads = 1, results = [],
         inflight = [], fetched = [(0, 100)], promise = None, callbacks = []\<rparr>" for j xs
    by (simp add: run one eventLoop_idle)
  show ?thesis
  proof (cases sched)
    case Nil
    then show ?thesis using after [of i "[]"] by (simp add: run)
  next
    case (Cons j xs)
    then show ?thesis using after [of j xs] after [of i sched] by simp
  qed
qed

text \<open>
  Claim C7, evaluated on the code. A scan of the heights 1 and 2 with two workers:
  when the first answer arrives, worker 0 leaves and the promise is resolved with the
  one transfer found so far while the request of worker 1 is still outstanding; the
  transfer of height 2 is pushed afterwards. The callback runs only after the last
  exit.
\<close>

theorem promise_resolved_before_workers_exit:
  "scanBlockRange sampleNode (Some 1) (Some 2) True [0] =
     \<lparr>blockNumber = 3, gotError = False, numThreads = 1,
      results = [Credit 1 7 ''0xdef''], inflight = [(1, 2)],
      fetched = [(0, 1), (1, 2)], promise = Some [Credit 1 7 ''0xdef''], callbacks = []\<rparr> \<and>
   scanBlockRange sampleNode (Some 1) (Some 2) True [0, 0] =
     \<lparr>blockNumber = 3, gotError = False, numThreads = 0,
      results = [Credit 1 7 ''0xdef'', Credit 2 7 ''0xdef''], inflight = [],
      fetched = [(0, 1), (1, 2)], promise = Some [Credit 1 7 ''0xdef''],
      callbacks = [(False, 2)]\<rparr>"
  by (simp add: scanBlockRange_def resolveHeights_def spawn.simps maxThreads_def
      asyncScanNextBlock_def initial_def answer_def getBlockCallback_def scanBlockCallback_def
      scanTransactionCallback_def exitThread_def sampleNode_def)


lemma answer_exhausted:
  assumes "stop < blockNumber s"
  shows "fetched (answer w3 stop cb i s) = fetched s \<and>
         blockNumber (answer w3 stop cb i s) = blockNumber s"
proof (cases "inflight s = []")
  case True
  then show ?thesis by (simp add: answer_idle)
next
  case False
  define k where "k = i mod length (inflight s)"
  define s1 where "s1 = s\<lparr>inflight := take k (inflight s) @ drop (Suc k) (inflight s)\<rparr>"
  have ans: "answer w3 stop cb i s =
      getBlockCallback w3 stop cb (fst (inflight s ! k)) (snd (inflight s ! k)) s1"
    using False by (simp add: answer_def Let_def k_def s1_def)
  show ?thesis
  proof (cases "getBlock w3 (snd (inflight s ! k))")
    case (Inl e)
    then show ?thesis by (simp add: ans getBlockCallback_def s1_def)
  next
    case (Inr block)
    show ?thesis
    proof (cases block)
      case None
      then show ?thesis
        using Inr by (simp add: ans getBlockCallback_def scanBlockCallback_def s1_def)
    next
      case (Some b)
      obtain rs where rs: "scanBlockCallback w3 (Some b) s1 = Inr (s1\<lparr>results := rs\<rparr>)"
        using scanBlockCallback_results by blast
      show ?thesis
        using assms Inr Some rs
        by (simp add: ans getBlockCallback_def asyncScanNextBlock_def exitThread_frame s1_def)
    qed
  qed
qed

lemma eventLoop_exhausted:
  "stop < blockNumber s \<Longrightarrow> fetched (eventLoop w3 stop cb sched s) = fetched s"
proof (induction sched arbitrary: s)
  case Nil
  then show ?case by simp
next
  case (Cons i sched)
  have "stop < blockNumber (answer w3 stop cb i s)"
    using answer_exhausted [OF Cons.prems] Cons.prems by simp
  from Cons.IH [OF this] show ?case
    using answer_exhausted [OF Cons.prems] by simp
qed

lemma scan_small_range:
  assumes h: "resolveHeights w3 startingBlock stoppingBlock = Inr (start, stop)"
    and range: "start \<le> stop" and small: "stop - start + 1 \<le> int maxThreads"
  shows "map snd (fetched (scanBlockRange w3 startingBlock stoppingBlock cb sched)) = [start..stop]"
proof -
  define s0 where "s0 = spawn start stop cb 0 (initial\<lparr>blockNumber := start\<rparr>)"
  obtain k where k: "spawnInv start stop k s0" "int k = min (int maxThreads) (stop - start + 1)"
    using spawn_result [of start stop 0 "initial\<lparr>blockNumber := start\<rparr>" cb]
      spawnInv_initial [of start stop] range unfolding s0_def by auto
  have kk: "int k = stop - start + 1" using k(2) small by simp
  have bn: "blockNumber s0 = stop + 1" and log: "map snd (fetched s0) = [start..stop]"
    using k(1) kk by (simp_all add: spawnInv_def)
  have "fetched (eventLoop w3 stop cb sched s0) = fetched s0"
    by (rule eventLoop_exhausted) (simp add: bn)
  thus ?thesis
    using scan_started [OF h range, of cb sched] log by (simp add: s0_def)
qed

text \<open>
  Claim C8. An omitted \<open>stoppingBlock\<close> becomes the chain head the node reports, and an
  omitted \<open>startingBlock\<close> becomes the resolved stop height minus 10. With both omitted
  and the head \<open>head\<close>, the scan requests exactly the 11 heights from \<open>head - 10\<close> to
  \<open>head\<close>, whatever the node answers and in whatever order.
\<close>

theorem default_heights:
  "(getBlockNumber w3 = Inr head \<longrightarrow>
      resolveHeights w3 startingBlock None =
        Inr (case startingBlock of
               None \<Rightarrow> head - 10
             | Some n \<Rightarrow> if n = 0 then head - 10 else n,
             head)) \<and>
   (resolveHeights w3 None stoppingBlock = Inr (start, stop) \<longrightarrow> start = stop - 10) \<and>
   (getBlockNumber w3 = Inr head \<longrightarrow>
      resolveHeights w3 None None = Inr (head - 10, head) \<and>
      map snd (fetched (scanBlockRange w3 None None cb sched)) = [head - 10..head] \<and>
      length (fetched (scanBlockRange w3 None None cb sched)) = 11)"
proof (intro conjI impI)
  assume "getBlockNumber w3 = Inr head"
  then show "resolveHeights w3 startingBlock None =
        Inr (case startingBlock of
               None \<Rightarrow> head - 10
             | Some n \<Rightarrow> if n = 0 then head - 10 else n,
             head)"
    by (simp add: resolveHeights_def)
next
  assume "resolveHeights w3 None stoppingBlock = Inr (start, stop)"
  then show "start = stop - 10"
    by (auto simp: resolveHeights_def split: sum.splits option.splits if_splits)
next
  assume head: "getBlockNumber w3 = Inr head"
  then show h: "resolveHeights w3 None None = Inr (head - 10, head)"
    by (simp add: resolveHeights_def)
  show log: "map snd (fetched (scanBlockRange w3 None None cb sched)) = [head - 10..head]"
    using h by (rule scan_small_range) (simp_all add: maxThreads_def)
  show "length (fetched (scanBlockRange w3 None None cb sched)) = 11"
    using arg_cong [OF log, of length] by simp
qed

theorem default_heights_witness:
  "getBlockNumber sampleNode = Inr 500 \<and>
   resolveHeights sampleNode None None = Inr (490, 500) \<and>
   resolveHeights sampleNode (Some 7) None = Inr (7, 500) \<and>
   resolveHeights sampleNode None (Some 80) = Inr (70, 80) \<and>
   map snd (fetched (scanBlockRange sampleNode None None True [3, 1, 4])) = [490..500]"
proof -
  have head: "getBlockNumber sampleNode = Inr 500"
    by (simp add: sampleNode_def)
  have r: "resolveHeights sampleNode None (Some 80) = Inr (70, 80)"
    by (simp add: resolveHeights_def)
  show ?thesis
    using head r default_heights [of sampleNode 500 None None 490 500 True "[3, 1, 4]"]
      default_heights [of sampleNode 500 "Some 7" "Some 80" 70 80 True "[3, 1, 4]"]
    by simp
qed

text \<open>
  Claim C10. A height of 0 is treated as an omitted height, because the test is
  \<^verbatim>\<open>!startingBlock\<close> and \<^verbatim>\<open>!stoppingBlock\<close>: the scan called with a start of 0 is the
  scan called without a start, so the start becomes the resolved stop height minus 10,
  and the scan called with a stop of 0 is the scan called without a stop, so the stop
  becomes the chain head the node reports.
\<close>

theorem zero_height_is_unset:
  "resolveHeights w3 (Some 0) stoppingBlock = resolveHeights w3 None stoppingBlock \<and>
   resolveHeights w3 startingBlock (Some 0) = resolveHeights w3 startingBlock None \<and>
   scanBlockRange w3 (Some 0) stoppingBlock cb sched =
     scanBlockRange w3 None stoppingBlock cb sched \<and>
   scanBlockRange w3 startingBlock (Some 0) cb sched =
     scanBlockRange w3 startingBlock None cb sched \<and>
   (resolveHeights w3 (Some 0) stoppingBlock = Inr (start, stop) \<longrightarrow> start = stop - 10) \<and>
   (getBlockNumber w3 = Inr head \<longrightarrow>
      (\<exists>start'. resolveHeights w3 startingBlock (Some 0) = Inr (start', head)))"
proof -
  have a: "resolveHeights w3 (Some 0) stoppingBlock = resolveHeights w3 None stoppingBlock"
    by (simp add: resolveHeights_def split: sum.splits)
  have b: "resolveHeights w3 startingBlock (Some 0) = resolveHeights w3 startingBlock None"
    by (simp add: resolveHeights_def)
  have c: "start = stop - 10" if "resolveHeights w3 (Some 0) stoppingBlock = Inr (start, stop)"
    using that by (auto simp: resolveHeights_def split: sum.splits option.splits if_splits)
  have d: "\<exists>start'. resolveHeights w3 startingBlock (Some 0) = Inr (start', head)"
    if "getBlockNumber w3 = Inr head"
    using that by (simp add: resolveHeights_def)
  show ?thesis
    using a b c d by (simp add: scanBlockRange_def)
qed

theorem zero_height_is_unset_witness:
  "resolveHeights sampleNode (Some 0) (Some 80) = Inr (70, 80) \<and>
   getBlockNumber sampleNode = Inr 500 \<and>
   (\<exists>start'. resolveHeights sampleNode (Some 495) (Some 0) = Inr (start', 500)) \<and>
   scanBlockRange sampleNode (Some 0) (Some 80) True [2] =
     scanBlockRange sampleNode None (Some 80) True [2]"
proof -
  have head: "getBlockNumber sampleNode = Inr 500"
    by (simp add: sampleNode_def)
  have r: "resolveHeights sampleNode (Some 0) (Some 80) = Inr (70, 80)"
    by (simp add: resolveHeights_def)
  show ?thesis
    using head r zero_height_is_unset [of sampleNode "Some 80" "Some 495" True "[2]" 70 80 500]
    by blast
qed


lemma exitInv_answer:
  assumes inv: "exitInv s"
  shows "exitInv (answer w3 stop cb i s)"
proof (cases "inflight s = []")
  case True
  then show ?thesis using inv by (simp add: answer_idle)
next
  case False
  define k where "k = i mod length (inflight s)"
  define s1 where "s1 = s\<lparr>inflight := take k (inflight s) @ drop (Suc k) (inflight s)\<rparr>"
  have k: "k < length (inflight s)" using False by (simp add: k_def)
  have len: "int (length (inflight s1)) = int (length (inflight s)) - 1"
    using k by (simp add: s1_def)
  have pos: "0 < numThreads s"
  proof -
    have "1 \<le> int (length (inflight s))" using False by (cases "inflight s") simp_all
    moreover have "int (length (inflight s)) \<le> numThreads s"
      using inv by (simp add: exitInv_def)
    ultimately show ?thesis by linarith
  qed
  hence quiet: "callbacks s = []" using inv by (auto simp: exitInv_def)
  have ans: "answer w3 stop cb i s =
      getBlockCallback w3 stop cb (fst (inflight s ! k)) (snd (inflight s ! k)) s1"
    using False by (simp add: answer_def Let_def k_def s1_def)
  show ?thesis
  proof (cases "getBlock w3 (snd (inflight s ! k))")
    case (Inl e)
    then show ?thesis
      using inv len quiet by (simp add: ans getBlockCallback_def exitInv_def s1_def)
  next
    case (Inr block)
    show ?thesis
    proof (cases block)
      case None
      then show ?thesis
        using inv len quiet Inr
        by (auto simp: ans getBlockCallback_def scanBlockCallback_def exitInv_def s1_def)
    next
      case (Some b)
      obtain rs where rs: "scanBlockCallback w3 (Some b) s1 = Inr (s1\<lparr>results := rs\<rparr>)"
        using scanBlockCallback_results by blast
      show ?thesis
        using inv len quiet pos Inr Some rs
        by (auto simp: ans getBlockCallback_def asyncScanNextBlock_def exitThread_def Let_def
            exitInv_def s1_def)
    qed
  qed
qed

lemma exitInv_eventLoop: "exitInv s \<Longrightarrow> exitInv (eventLoop w3 stop cb sched s)"
  by (induction sched arbitrary: s) (simp_all add: exitInv_answer)

lemma spawnInv_exitInv: "spawnInv start stop k s \<Longrightarrow> exitInv s"
  by (simp add: spawnInv_def exitInv_def)

lemma exitInv_scan: "exitInv (scanBlockRange w3 startingBlock stoppingBlock cb sched)"
proof (cases "resolveHeights w3 startingBlock stoppingBlock")
  case (Inl e)
  then show ?thesis by (simp add: scanBlockRange_def exitInv_def initial_def)
next
  case (Inr r)
  obtain start stop where r: "r = (start, stop)" by (cases r) auto
  show ?thesis
  proof (cases "start \<le> stop")
    case True
    obtain k where "spawnInv start stop k (spawn start stop cb 0 (initial\<lparr>blockNumber := start\<rparr>))"
      using spawn_result [of start stop 0 "initial\<lparr>blockNumber := start\<rparr>" cb]
        spawnInv_initial [of start stop] True by auto
    hence "exitInv (spawn start stop cb 0 (initial\<lparr>blockNumber := start\<rparr>))"
      by (rule spawnInv_exitInv)
    thus ?thesis
      using Inr r True by (simp add: scanBlockRange_def exitInv_eventLoop)
  next
    case False
    then show ?thesis using Inr r by (simp add: scanBlockRange_def exitInv_def initial_def)
  qed
qed

text \<open>In no scan does the callback run while a request is outstanding, and in no scan
  in which a fetch has failed does it run at all: the error flag it would carry is never
  delivered.\<close>

lemma callback_after_last_exit:
  "callbacks (scanBlockRange w3 startingBlock stoppingBlock cb sched) \<noteq> [] \<Longrightarrow>
   inflight (scanBlockRange w3 startingBlock stoppingBlock cb sched) = [] \<and>
   numThreads (scanBlockRange w3 startingBlock stoppingBlock cb sched) = 0"
  using exitInv_scan [of w3 startingBlock stoppingBlock cb sched] by (auto simp: exitInv_def)

lemma error_flag_never_delivered:
  "gotError (scanBlockRange w3 startingBlock stoppingBlock cb sched) \<Longrightarrow>
   callbacks (scanBlockRange w3 startingBlock stoppingBlock cb sched) = [] \<and>
   0 < numThreads (scanBlockRange w3 startingBlock stoppingBlock cb sched)"
  using exitInv_scan [of w3 startingBlock stoppingBlock cb sched] by (auto simp: exitInv_def)

section \<open>Properties of the invoker\<close>

lemma isMethodPayable_find:
  "isMethodPayable nm abi =
     (case find (\<lambda>e. entry_name e = Some nm) abi of
        None \<Rightarrow> False
      | Some e \<Rightarrow> entry_constant e \<noteq> Some True)"
  by (induction abi) (auto split: option.splits)

lemma prepare_trace:
  "countEstimateGas (fst (prepare eng w3 p abi addr)) = 0 \<and>
   countSend (fst (prepare eng w3 p abi addr)) = 0 \<and>
   countCall (fst (prepare eng w3 p abi addr)) = 0 \<and>
   dispatched (fst (prepare eng w3 p abi addr)) = []"
  by (simp add: prepare_def bound_def countEstimateGas_def countSend_def countCall_def
      split: option.splits sum.splits)

lemma estimate_trace:
  "countEstimateGas (fst (estimate w3 p code wallet gp)) = (if gas gp = None \<and> p then 1 else 0) \<and>
   countSend (fst (estimate w3 p code wallet gp)) = 0 \<and>
   countCall (fst (estimate w3 p code wallet gp)) = 0 \<and>
   dispatched (fst (estimate w3 p code wallet gp)) = []"
  by (simp add: estimate_def countEstimateGas_def countSend_def countCall_def split: sum.splits)

lemma dispatch_trace:
  "countEstimateGas (fst (dispatch w3 m gp c)) = 0 \<and>
   dispatched (fst (dispatch w3 m gp c)) =
     (if methods w3 m = None \<and> (c = RECEIPT \<or> c = CONFIRMATION \<or> c = STATIC) then [gp] else [])"
  by (simp add: dispatch_def countEstimateGas_def split: option.splits)


lemma awaitReceipt_resolved:
  "awaitReceipt es = Resolved v \<Longrightarrow> \<exists>rec. v = Receipt rec \<and> OnReceipt rec \<in> set es"
  by (induction es rule: awaitReceipt.induct) auto

lemma dispatch_receipt:
  "countCall (fst (dispatch w3 m gp RECEIPT)) = 0 \<and>
   ((\<forall>e. snd (dispatch w3 m gp RECEIPT) \<noteq> Rejected e) \<longrightarrow>
      countSend (fst (dispatch w3 m gp RECEIPT)) = 1) \<and>
   (snd (dispatch w3 m gp RECEIPT) = Resolved v \<longrightarrow>
      (\<exists>rec. v = Receipt rec \<and> Send m gp \<in> set (fst (dispatch w3 m gp RECEIPT)) \<and>
           OnReceipt rec \<in> set (methodSend w3 m gp)))"
  by (auto simp: dispatch_def countSend_def countCall_def RECEIPT_def
      split: option.splits dest: awaitReceipt_resolved)

text \<open>The three ways \<open>callFunction\<close> ends, by the stage that stops it.\<close>

lemma callFunction_prepare_fails:
  assumes "snd (prepare eng w3 (payable eng nm abi) abi addr) = Inl e"
  shows "callFunction eng w3 nm ps gp conf abi addr =
           (fst (prepare eng w3 (payable eng nm abi) abi addr), Rejected e)"
  using assms by (cases "prepare eng w3 (payable eng nm abi) abi addr") (simp add: callFunction_def)

lemma callFunction_estimate_fails:
  assumes "snd (prepare eng w3 (payable eng nm abi) abi addr) = Inr (code, contract, wallet)"
    and "snd (estimate w3 (payable eng nm abi) code wallet gp) = Inl e"
  shows "callFunction eng w3 nm ps gp conf abi addr =
           (fst (prepare eng w3 (payable eng nm abi) abi addr) @
            fst (estimate w3 (payable eng nm abi) code wallet gp), Rejected e)"
  using assms
  by (cases "prepare eng w3 (payable eng nm abi) abi addr",
      cases "estimate w3 (payable eng nm abi) code wallet gp") (simp add: callFunction_def)

lemma callFunction_dispatches:
  assumes "snd (prepare eng w3 (payable eng nm abi) abi addr) = Inr (code, contract, wallet)"
    and "snd (estimate w3 (payable eng nm abi) code wallet gp) = Inr gp'"
  shows "callFunction eng w3 nm ps gp conf abi addr =
           (fst (prepare eng w3 (payable eng nm abi) abi addr) @
            fst (estimate w3 (payable eng nm abi) code wallet gp) @
            fst (dispatch w3 \<lparr>m_abi = fst contract, m_address = snd contract,
                               m_name = nm, m_params = ps\<rparr> gp'
                   (case conf of None \<Rightarrow> 0 | Some c \<Rightarrow> c)),
            snd (dispatch w3 \<lparr>m_abi = fst contract, m_address = snd contract,
                               m_name = nm, m_params = ps\<rparr> gp'
                   (case conf of None \<Rightarrow> 0 | Some c \<Rightarrow> c)))"
  using assms
  by (cases "prepare eng w3 (payable eng nm abi) abi addr",
      cases "estimate w3 (payable eng nm abi) code wallet gp")
     (simp add: callFunction_def split: prod.splits)

lemma count_append [simp]:
  "countEstimateGas (xs @ ys) = countEstimateGas xs + countEstimateGas ys"
  "countSend (xs @ ys) = countSend xs + countSend ys"
  "countCall (xs @ ys) = countCall xs + countCall ys"
  by (simp_all add: countEstimateGas_def countSend_def countCall_def)

lemma dispatched_append [simp]: "dispatched (xs @ ys) = dispatched xs @ dispatched ys"
  by (induction xs rule: dispatched.induct) simp_all


lemma callFunction_estimates:
  "countEstimateGas (fst (callFunction eng w3 nm ps gp conf abi addr)) =
     (if payable eng nm abi \<and> gas gp = None \<and>
         \<not> isl (snd (prepare eng w3 (payable eng nm abi) abi addr))
      then 1 else 0)"
proof (cases "snd (prepare eng w3 (payable eng nm abi) abi addr)")
  case (Inl e)
  then show ?thesis
    using callFunction_prepare_fails [OF Inl, of ps gp conf] prepare_trace by simp
next
  case (Inr r)
  obtain code contract wallet where r: "r = (code, contract, wallet)"
    by (cases r) auto
  note prep = Inr [unfolded r]
  show ?thesis
  proof (cases "snd (estimate w3 (payable eng nm abi) code wallet gp)")
    case (Inl e)
    show ?thesis
      using callFunction_estimate_fails [OF prep Inl, of ps conf] prep prepare_trace estimate_trace
      by auto
  next
    case (Inr gp')
    show ?thesis
      using callFunction_dispatches [OF prep Inr, of ps conf] prep prepare_trace estimate_trace
        dispatch_trace
      by auto
  qed
qed

lemma isMethodPayable_prefix:
  "list_all (\<lambda>e. entry_name e \<noteq> Some nm) pre \<Longrightarrow>
   isMethodPayable nm (pre @ rest) = isMethodPayable nm rest"
  by (induction pre) simp_all

lemma isMethodPayable_absent:
  "list_all (\<lambda>e. entry_name e \<noteq> Some nm) abi \<Longrightarrow> \<not> isMethodPayable nm abi"
  by (induction abi) simp_all

text \<open>
  Claim C6. \<open>isMethodPayable\<close> scans the entries in order and the first entry whose name
  equals the method name decides: whatever follows it, the result is that entry's
  \<^verbatim>\<open>!constant\<close>. A name that no entry carries is reported not payable, and an invocation
  of such a name makes no gas-estimation request.
\<close>

theorem isMethodPayable_first_match:
  "(list_all (\<lambda>e. entry_name e \<noteq> Some nm) pre \<and> entry_name e = Some nm \<longrightarrow>
      isMethodPayable nm (pre @ e # post) = (entry_constant e \<noteq> Some True)) \<and>
   (list_all (\<lambda>e. entry_name e \<noteq> Some nm) abi \<longrightarrow> \<not> isMethodPayable nm abi) \<and>
   (list_all (\<lambda>e. entry_name e \<noteq> Some nm)
      (forIn (case abi' of None \<Rightarrow> abiConfiguration eng | Some a \<Rightarrow> Some a)) \<longrightarrow>
      countEstimateGas (fst (callFunction eng w3 nm ps gp conf abi' addr)) = 0)"
proof (intro conjI impI)
  assume "list_all (\<lambda>e. entry_name e \<noteq> Some nm) pre \<and> entry_name e = Some nm"
  then show "isMethodPayable nm (pre @ e # post) = (entry_constant e \<noteq> Some True)"
    by (auto simp: isMethodPayable_prefix split: option.splits)
next
  assume "list_all (\<lambda>e. entry_name e \<noteq> Some nm) abi"
  then show "\<not> isMethodPayable nm abi" by (rule isMethodPayable_absent)
next
  assume "list_all (\<lambda>e. entry_name e \<noteq> Some nm)
            (forIn (case abi' of None \<Rightarrow> abiConfiguration eng | Some a \<Rightarrow> Some a))"
  then have "\<not> payable eng nm abi'"
    unfolding payable_def by (rule isMethodPayable_absent)
  then show "countEstimateGas (fst (callFunction eng w3 nm ps gp conf abi' addr)) = 0"
    by (simp add: callFunction_estimates)
qed

theorem isMethodPayable_first_match_witness:
  "list_all (\<lambda>e. entry_name e \<noteq> Some ''deposit'') [\<lparr>entry_name = None, entry_constant = None\<rparr>] \<and>
   isMethodPayable ''deposit'' sampleAbi \<and>
   list_all (\<lambda>e. entry_name e \<noteq> Some ''transfer'') sampleAbi \<and>
   \<not> isMethodPayable ''transfer'' sampleAbi \<and>
   countEstimateGas (fst (callFunction sampleEngine sampleNode ''transfer'' [] noOptions
      (Some STATIC) None None)) = 0"
  using isMethodPayable_first_match [where nm = "''deposit''"
      and pre = "[\<lparr>entry_name = None, entry_constant = None\<rparr>]"
      and e = "\<lparr>entry_name = Some ''deposit'', entry_constant = Some False\<rparr>"
      and post = "[\<lparr>entry_name = Some ''balanceOf'', entry_constant = Some True\<rparr>,
        \<lparr>entry_name = Some ''deposit'', entry_constant = Some True\<rparr>]"]
    isMethodPayable_first_match [where nm = "''transfer''" and abi = sampleAbi and abi' = None
      and eng = sampleEngine and ?w3.0 = sampleNode and ps = "[]" and gp = noOptions
      and conf = "Some STATIC" and addr = None]
  by (simp add: sampleAbi_def sampleEngine_def forIn_def)


lemma dispatch_receipt_built:
  "methods w3 m = None \<Longrightarrow>
   dispatch w3 m gp RECEIPT = ([Send m gp], awaitReceipt (methodSend w3 m gp))"
  by (simp add: dispatch_def)


lemma awaitReceipt_first:
  "awaitReceipt es =
     (case find (\<lambda>e. \<not> isConfirmation e) es of
        None \<Rightarrow> Pending
      | Some (OnReceipt rec) \<Rightarrow> Resolved (Receipt rec)
      | Some (OnConfirmation n rec) \<Rightarrow> Pending
      | Some (OnError err) \<Rightarrow> Rejected err)"
  by (induction es rule: awaitReceipt.induct) simp_all






text \<open>
  Claim C5, as the code has it. For a payable method invoked without a gas value: when
  the preparation fails (the bytecode cannot be fetched, or the engine has no ABI of
  its own to fall back on) the invocation is rejected and no gas estimate is requested;
  otherwise the invoker asks the node for a gas estimate exactly once, with the code and
  wallet the preparation chose. When the node answers with an estimate, the options of
  the call that is dispatched are the caller's with \<open>gas\<close> set to the estimate and
  \<open>gasLimit\<close> to exactly twice the estimate; a call is dispatched when the method
  object can be built and the mode is one of the three of the enumeration.
\<close>

theorem payable_gas_plan:
  assumes pay: "payable eng nm abi"
    and nogas: "gas gp = None"
  shows "countEstimateGas (fst (callFunction eng w3 nm ps gp conf abi addr)) =
           (if isl (snd (prepare eng w3 (payable eng nm abi) abi addr)) then 0 else 1) \<and>
         (snd (prepare eng w3 (payable eng nm abi) abi addr) = Inl e \<longrightarrow>
            snd (callFunction eng w3 nm ps gp conf abi addr) = Rejected e) \<and>
         (snd (prepare eng w3 (payable eng nm abi) abi addr) = Inr (code, contract, wallet) \<longrightarrow>
            EstimateGas code wallet \<in> set (fst (callFunction eng w3 nm ps gp conf abi addr))) \<and>
         (snd (prepare eng w3 (payable eng nm abi) abi addr) = Inr (code, contract, wallet) \<and>
          estimateGas w3 code wallet = Inr ets \<longrightarrow>
            list_all (\<lambda>opts. gas opts = Some ets \<and> gasLimit opts = Some (2 * ets))
              (dispatched (fst (callFunction eng w3 nm ps gp conf abi addr))) \<and>
            dispatched (fst (callFunction eng w3 nm ps gp conf abi addr)) =
              (if methods w3 \<lparr>m_abi = fst contract, m_address = snd contract,
                               m_name = nm, m_params = ps\<rparr> = None \<and>
                  (conf = None \<or> conf = Some RECEIPT \<or> conf = Some CONFIRMATION \<or>
                   conf = Some STATIC)
               then [gp\<lparr>gas := Some ets, gasLimit := Some (2 * ets)\<rparr>] else []))"
proof (intro conjI impI)
  show "countEstimateGas (fst (callFunction eng w3 nm ps gp conf abi addr)) =
           (if isl (snd (prepare eng w3 (payable eng nm abi) abi addr)) then 0 else 1)"
    using pay nogas by (simp add: callFunction_estimates)
next
  assume "snd (prepare eng w3 (payable eng nm abi) abi addr) = Inl e"
  from callFunction_prepare_fails [OF this, of ps gp conf]
  show "snd (callFunction eng w3 nm ps gp conf abi addr) = Rejected e" by simp
next
  assume prep: "snd (prepare eng w3 (payable eng nm abi) abi addr) = Inr (code, contract, wallet)"
  have tr: "fst (estimate w3 (payable eng nm abi) code wallet gp) = [EstimateGas code wallet]"
    using pay nogas by (simp add: estimate_def split: sum.splits)
  show "EstimateGas code wallet \<in> set (fst (callFunction eng w3 nm ps gp conf abi addr))"
  proof (cases "snd (estimate w3 (payable eng nm abi) code wallet gp)")
    case (Inl x)
    show ?thesis using callFunction_estimate_fails [OF prep Inl, of ps conf] tr by simp
  next
    case (Inr g)
    show ?thesis using callFunction_dispatches [OF prep Inr, of ps conf] tr by simp
  qed
next
  assume both: "snd (prepare eng w3 (payable eng nm abi) abi addr) = Inr (code, contract, wallet) \<and>
          estimateGas w3 code wallet = Inr ets"
  hence prep: "snd (prepare eng w3 (payable eng nm abi) abi addr) = Inr (code, contract, wallet)"
    and est: "estimateGas w3 code wallet = Inr ets" by simp_all
  have "snd (estimate w3 (payable eng nm abi) code wallet gp) =
          Inr (gp\<lparr>gas := Some ets, gasLimit := Some (2 * ets)\<rparr>)"
    using pay nogas est by (simp add: estimate_def mult.commute)
  from callFunction_dispatches [OF prep this, of ps conf]
  have d: "dispatched (fst (callFunction eng w3 nm ps gp conf abi addr)) =
        dispatched (fst (dispatch w3 \<lparr>m_abi = fst contract, m_address = snd contract,
                               m_name = nm, m_params = ps\<rparr>
                   (gp\<lparr>gas := Some ets, gasLimit := Some (2 * ets)\<rparr>)
                   (case conf of None \<Rightarrow> 0 | Some c \<Rightarrow> c)))"
    using prepare_trace estimate_trace by simp
  show "dispatched (fst (callFunction eng w3 nm ps gp conf abi addr)) =
              (if methods w3 \<lparr>m_abi = fst contract, m_address = snd contract,
                               m_name = nm, m_params = ps\<rparr> = None \<and>
                  (conf = None \<or> conf = Some RECEIPT \<or> conf = Some CONFIRMATION \<or>
                   conf = Some STATIC)
               then [gp\<lparr>gas := Some ets, gasLimit := Some (2 * ets)\<rparr>] else [])"
    unfolding d by (cases conf) (auto simp: dispatch_trace RECEIPT_def)
  then show "list_all (\<lambda>opts. gas opts = Some ets \<and> gasLimit opts = Some (2 * ets))
              (dispatched (fst (callFunction eng w3 nm ps gp conf abi addr)))"
    by simp
qed

theorem payable_gas_plan_witness:
  "payable sampleEngine ''deposit'' None \<and> gas noOptions = None \<and>
   estimateGas sampleNode (Some ''0x6080'') None = Inr 21000 \<and>
   countEstimateGas (fst (callFunction sampleEngine sampleNode ''deposit'' [] noOptions
     (Some CONFIRMATION) None None)) = 1 \<and>
   dispatched (fst (callFunction sampleEngine sampleNode ''deposit'' [] noOptions
     (Some CONFIRMATION) None None)) =
     [\<lparr>gas = Some 21000, gasLimit = Some 42000, txValue = None, txFrom = None\<rparr>] \<and>
   payable sampleEngine ''deposit'' (Some sampleAbi) \<and>
   snd (callFunction sampleEngine codelessNode ''deposit'' [] noOptions None
     (Some sampleAbi) (Some ''0xbeef'')) = Rejected (NodeError ''unreachable'')"
proof -
  have pay: "payable sampleEngine ''deposit'' None"
    by (simp add: payable_def forIn_def sampleEngine_def sampleAbi_def)
  have pay': "payable sampleEngine ''deposit'' (Some sampleAbi)"
    by (simp add: payable_def forIn_def sampleAbi_def)
  have nogas: "gas noOptions = None"
    by (simp add: noOptions_def)
  have prep: "snd (prepare sampleEngine sampleNode (payable sampleEngine ''deposit'' None) None None) =
      Inr (Some ''0x6080'', (sampleAbi, Some ''0xc0de''), None)"
    by (simp add: prepare_def bound_def sampleEngine_def)
  have prep': "snd (prepare sampleEngine codelessNode (payable sampleEngine ''deposit'' (Some sampleAbi))
      (Some sampleAbi) (Some ''0xbeef'')) = Inl (NodeError ''unreachable'')"
    using pay' by (simp add: prepare_def codelessNode_def)
  have est: "estimateGas sampleNode (Some ''0x6080'') None = Inr 21000"
    by (simp add: sampleNode_def)
  have build: "methods sampleNode m = None" for m
    by (simp add: sampleNode_def)
  have one: "countEstimateGas (fst (callFunction sampleEngine sampleNode ''deposit'' [] noOptions
       (Some CONFIRMATION) None None)) = 1 \<and>
     dispatched (fst (callFunction sampleEngine sampleNode ''deposit'' [] noOptions
       (Some CONFIRMATION) None None)) =
     [\<lparr>gas = Some 21000, gasLimit = Some 42000, txValue = None, txFrom = None\<rparr>]"
    using prep est build
      payable_gas_plan [OF pay nogas, where ?w3.0 = sampleNode and ps = "[]"
        and conf = "Some CONFIRMATION" and addr = None and code = "Some ''0x6080''"
        and contract = "(sampleAbi, Some ''0xc0de'')" and wallet = None and ets = 21000]
    by (simp add: noOptions_def)
  have two: "snd (callFunction sampleEngine codelessNode ''deposit'' [] noOptions None
     (Some sampleAbi) (Some ''0xbeef'')) = Rejected (NodeError ''unreachable'')"
    using prep'
      payable_gas_plan [OF pay' nogas, where ?w3.0 = codelessNode and addr = "Some ''0xbeef''"
        and e = "NodeError ''unreachable''" and ps = "[]" and conf = None]
    by blast
  show ?thesis using pay pay' nogas est one two by blast
qed

text \<open>The claim as the specification words it fails: the payable method \<^verbatim>\<open>deposit\<close> of
  an ad-hoc contract, invoked without a gas value on a node that cannot return the
  contract's bytecode, is rejected before any gas estimate is requested.\<close>

theorem payable_without_estimate:
  "payable sampleEngine ''deposit'' (Some sampleAbi) \<and> gas noOptions = None \<and>
   callFunction sampleEngine codelessNode ''deposit'' [] noOptions None
     (Some sampleAbi) (Some ''0xbeef'') =
     ([GetCode ''0xbeef''], Rejected (NodeError ''unreachable'')) \<and>
   countEstimateGas (fst (callFunction sampleEngine codelessNode ''deposit'' [] noOptions None
     (Some sampleAbi) (Some ''0xbeef''))) = 0"
  by (simp add: callFunction_def payable_def forIn_def prepare_def bound_def
      sampleEngine_def sampleNode_def codelessNode_def sampleAbi_def noOptions_def
      countEstimateGas_def)

lemma receipt_partial:
  "callFunction eng w3 nm ps gp None abi addr =
     callFunction eng w3 nm ps gp (Some RECEIPT) abi addr \<and>
   countCall (fst (callFunction eng w3 nm ps gp None abi addr)) = 0 \<and>
   ((\<forall>e. snd (callFunction eng w3 nm ps gp None abi addr) \<noteq> Rejected e) \<longrightarrow>
      countSend (fst (callFunction eng w3 nm ps gp None abi addr)) = 1) \<and>
   (snd (callFunction eng w3 nm ps gp None abi addr) = Resolved v \<longrightarrow>
      (\<exists>m opts rec. v = Receipt rec \<and> OnReceipt rec \<in> set (methodSend w3 m opts) \<and>
         Send m opts \<in> set (fst (callFunction eng w3 nm ps gp None abi addr))))"
proof -
  have same: "callFunction eng w3 nm ps gp None abi addr =
     callFunction eng w3 nm ps gp (Some RECEIPT) abi addr"
    by (simp add: callFunction_def RECEIPT_def)
  have rest: "countCall (fst (callFunction eng w3 nm ps gp None abi addr)) = 0 \<and>
   ((\<forall>e. snd (callFunction eng w3 nm ps gp None abi addr) \<noteq> Rejected e) \<longrightarrow>
      countSend (fst (callFunction eng w3 nm ps gp None abi addr)) = 1) \<and>
   (snd (callFunction eng w3 nm ps gp None abi addr) = Resolved v \<longrightarrow>
      (\<exists>m opts rec. v = Receipt rec \<and> OnReceipt rec \<in> set (methodSend w3 m opts) \<and>
         Send m opts \<in> set (fst (callFunction eng w3 nm ps gp None abi addr))))"
  proof (cases "snd (prepare eng w3 (payable eng nm abi) abi addr)")
    case (Inl e)
    show ?thesis
      using callFunction_prepare_fails [OF Inl, of ps gp None] prepare_trace by simp
  next
    case (Inr r)
    obtain code contract wallet where r: "r = (code, contract, wallet)"
      by (cases r) auto
    note prep = Inr [unfolded r]
    show ?thesis
    proof (cases "snd (estimate w3 (payable eng nm abi) code wallet gp)")
      case (Inl e)
      show ?thesis
        using callFunction_estimate_fails [OF prep Inl, of ps None] prepare_trace estimate_trace
        by simp
    next
      case (Inr gp')
      define m where "m = \<lparr>m_abi = fst contract, m_address = snd contract,
                           m_name = nm, m_params = ps\<rparr>"
      have cf: "callFunction eng w3 nm ps gp None abi addr =
                (fst (prepare eng w3 (payable eng nm abi) abi addr) @
                 fst (estimate w3 (payable eng nm abi) code wallet gp) @
                 fst (dispatch w3 m gp' RECEIPT), snd (dispatch w3 m gp' RECEIPT))"
        using callFunction_dispatches [OF prep Inr, of ps None] by (simp add: m_def RECEIPT_def)
      have calls: "countCall (fst (callFunction eng w3 nm ps gp None abi addr)) = 0"
        using cf prepare_trace estimate_trace dispatch_receipt by simp
      have sends: "countSend (fst (callFunction eng w3 nm ps gp None abi addr)) = 1"
        if "\<forall>e. snd (callFunction eng w3 nm ps gp None abi addr) \<noteq> Rejected e"
        using that cf prepare_trace estimate_trace dispatch_receipt [of w3 m gp'] by simp
      have res: "\<exists>m opts rec. v = Receipt rec \<and> OnReceipt rec \<in> set (methodSend w3 m opts) \<and>
           Send m opts \<in> set (fst (callFunction eng w3 nm ps gp None abi addr))"
        if "snd (callFunction eng w3 nm ps gp None abi addr) = Resolved v"
      proof -
        from that cf have "snd (dispatch w3 m gp' RECEIPT) = Resolved v" by simp
        then obtain rec where "v = Receipt rec"
            "Send m gp' \<in> set (fst (dispatch w3 m gp' RECEIPT))"
            "OnReceipt rec \<in> set (methodSend w3 m gp')"
          using dispatch_receipt [of w3 m gp' v] by blast
        then show ?thesis using cf by auto
      qed
      show ?thesis using calls sends res by blast
    qed
  qed
  show ?thesis using same rest by blast
qed


text \<open>
  Claim C9. An invocation whose confirmation argument is undefined is the invocation
  in \<open>RECEIPT\<close> mode: the same requests and the same end. It makes no read-only call.
  When the preparation and the estimate (if one is made) succeed and the method object
  can be built, it broadcasts the call once, as the last request of the trace, and the
  first event of the broadcast that is not a confirmation settles it: a receipt
  resolves it with that receipt, a failure rejects it, and without such an event it
  stays pending.
\<close>

theorem undefined_confirmation_is_receipt:
  "callFunction eng w3 nm ps gp None abi addr =
     callFunction eng w3 nm ps gp (Some RECEIPT) abi addr \<and>
   countCall (fst (callFunction eng w3 nm ps gp None abi addr)) = 0 \<and>
   (snd (prepare eng w3 (payable eng nm abi) abi addr) = Inr (code, contract, wallet) \<and>
    snd (estimate w3 (payable eng nm abi) code wallet gp) = Inr gp' \<and>
    methods w3 \<lparr>m_abi = fst contract, m_address = snd contract,
                 m_name = nm, m_params = ps\<rparr> = None \<longrightarrow>
      fst (callFunction eng w3 nm ps gp None abi addr) =
        fst (prepare eng w3 (payable eng nm abi) abi addr) @
        fst (estimate w3 (payable eng nm abi) code wallet gp) @
        [Send \<lparr>m_abi = fst contract, m_address = snd contract,
               m_name = nm, m_params = ps\<rparr> gp'] \<and>
      countSend (fst (callFunction eng w3 nm ps gp None abi addr)) = 1 \<and>
      snd (callFunction eng w3 nm ps gp None abi addr) =
        (case find (\<lambda>e. \<not> isConfirmation e)
                (methodSend w3 \<lparr>m_abi = fst contract, m_address = snd contract,
                                  m_name = nm, m_params = ps\<rparr> gp') of
           None \<Rightarrow> Pending
         | Some (OnReceipt rec) \<Rightarrow> Resolved (Receipt rec)
         | Some (OnConfirmation n rec) \<Rightarrow> Pending
         | Some (OnError err) \<Rightarrow> Rejected err)) \<and>
   ((\<forall>e. snd (callFunction eng w3 nm ps gp None abi addr) \<noteq> Rejected e) \<longrightarrow>
      countSend (fst (callFunction eng w3 nm ps gp None abi addr)) = 1) \<and>
   (snd (callFunction eng w3 nm ps gp None abi addr) = Resolved v \<longrightarrow>
      (\<exists>m opts rec. v = Receipt rec \<and> OnReceipt rec \<in> set (methodSend w3 m opts) \<and>
         Send m opts \<in> set (fst (callFunction eng w3 nm ps gp None abi addr))))"
proof -
  have built: "fst (callFunction eng w3 nm ps gp None abi addr) =
        fst (prepare eng w3 (payable eng nm abi) abi addr) @
        fst (estimate w3 (payable eng nm abi) code wallet gp) @
        [Send \<lparr>m_abi = fst contract, m_address = snd contract,
               m_name = nm, m_params = ps\<rparr> gp'] \<and>
      countSend (fst (callFunction eng w3 nm ps gp None abi addr)) = 1 \<and>
      snd (callFunction eng w3 nm ps gp None abi addr) =
        (case find (\<lambda>e. \<not> isConfirmation e)
                (methodSend w3 \<lparr>m_abi = fst contract, m_address = snd contract,
                                  m_name = nm, m_params = ps\<rparr> gp') of
           None \<Rightarrow> Pending
         | Some (OnReceipt rec) \<Rightarrow> Resolved (Receipt rec)
         | Some (OnConfirmation n rec) \<Rightarrow> Pending
         | Some (OnError err) \<Rightarrow> Rejected err)"
    if prep: "snd (prepare eng w3 (payable eng nm abi) abi addr) = Inr (code, contract, wallet)"
      and est: "snd (estimate w3 (payable eng nm abi) code wallet gp) = Inr gp'"
      and m: "methods w3 \<lparr>m_abi = fst contract, m_address = snd contract,
                 m_name = nm, m_params = ps\<rparr> = None"
  proof -
    have cf: "callFunction eng w3 nm ps gp None abi addr =
        (fst (prepare eng w3 (payable eng nm abi) abi addr) @
         fst (estimate w3 (payable eng nm abi) code wallet gp) @
         [Send \<lparr>m_abi = fst contract, m_address = snd contract,
                m_name = nm, m_params = ps\<rparr> gp'],
         awaitReceipt (methodSend w3 \<lparr>m_abi = fst contract, m_address = snd contract,
                                       m_name = nm, m_params = ps\<rparr> gp'))"
      using callFunction_dispatches [OF prep est, of ps None]
        dispatch_receipt_built [OF m, of gp'] by (simp add: RECEIPT_def)
    have "countSend (fst (callFunction eng w3 nm ps gp None abi addr)) = 1"
      unfolding cf using prepare_trace estimate_trace by (simp add: countSend_def)
    with cf show ?thesis by (simp add: awaitReceipt_first)
  qed
  show ?thesis
    using built receipt_partial [of eng w3 nm ps gp abi addr v] by blast
qed

theorem undefined_confirmation_is_receipt_witness:
  "snd (prepare sampleEngine sampleNode (payable sampleEngine ''deposit'' None) None None) =
     Inr (Some ''0x6080'', (sampleAbi, Some ''0xc0de''), None) \<and>
   snd (estimate sampleNode (payable sampleEngine ''deposit'' None) (Some ''0x6080'') None noOptions) =
     Inr (noOptions\<lparr>gas := Some 21000, gasLimit := Some 42000\<rparr>) \<and>
   fst (callFunction sampleEngine sampleNode ''deposit'' [] noOptions None None None) =
     [EstimateGas (Some ''0x6080'') None,
      Send \<lparr>m_abi = sampleAbi, m_address = Some ''0xc0de'', m_name = ''deposit'', m_params = []\<rparr>
        (noOptions\<lparr>gas := Some 21000, gasLimit := Some 42000\<rparr>)] \<and>
   snd (callFunction sampleEngine sampleNode ''deposit'' [] noOptions None None None) =
     Resolved (Receipt \<lparr>transactionHash = ''0xfeed'', confNumber = None\<rparr>) \<and>
   countSend (fst (callFunction sampleEngine sampleNode ''deposit'' [] noOptions None None None)) = 1"
proof -
  have pay: "payable sampleEngine ''deposit'' None"
    by (simp add: payable_def forIn_def sampleEngine_def sampleAbi_def)
  have prep: "prepare sampleEngine sampleNode (payable sampleEngine ''deposit'' None) None None =
     ([], Inr (Some ''0x6080'', (sampleAbi, Some ''0xc0de''), None))"
    by (simp add: prepare_def bound_def sampleEngine_def)
  have est: "estimate sampleNode (payable sampleEngine ''deposit'' None) (Some ''0x6080'') None noOptions =
     ([EstimateGas (Some ''0x6080'') None],
      Inr (noOptions\<lparr>gas := Some 21000, gasLimit := Some 42000\<rparr>))"
    using pay by (simp add: estimate_def sampleNode_def noOptions_def)
  have build: "methods sampleNode m = None" for m
    by (simp add: sampleNode_def)
  have send: "methodSend sampleNode m opts =
      [OnReceipt \<lparr>transactionHash = ''0xfeed'', confNumber = None\<rparr>,
       OnConfirmation 0 \<lparr>transactionHash = ''0xfeed'', confNumber = None\<rparr>]" for m opts
    by (simp add: sampleNode_def)
  note t = undefined_confirmation_is_receipt [of sampleEngine sampleNode "''deposit''" "[]" noOptions
        None None "Some ''0x6080''" "(sampleAbi, Some ''0xc0de'')" None
        "noOptions\<lparr>gas := Some 21000, gasLimit := Some 42000\<rparr>"
        "Receipt \<lparr>transactionHash = ''0xfeed'', confNumber = None\<rparr>"]
  have stages:
    "snd (prepare sampleEngine sampleNode (payable sampleEngine ''deposit'' None) None None) =
       Inr (Some ''0x6080'', (sampleAbi, Some ''0xc0de''), None) \<and>
     snd (estimate sampleNode (payable sampleEngine ''deposit'' None) (Some ''0x6080'') None noOptions) =
       Inr (noOptions\<lparr>gas := Some 21000, gasLimit := Some 42000\<rparr>) \<and>
     methods sampleNode \<lparr>m_abi = fst (sampleAbi, Some ''0xc0de''),
       m_address = snd (sampleAbi, Some ''0xc0de''), m_name = ''deposit'', m_params = []\<rparr> = None"
    using prep est build by simp
  have "fst (callFunction sampleEngine sampleNode ''deposit'' [] noOptions None None None) =
        fst (prepare sampleEngine sampleNode (payable sampleEngine ''deposit'' None) None None) @
        fst (estimate sampleNode (payable sampleEngine ''deposit'' None) (Some ''0x6080'') None noOptions) @
        [Send \<lparr>m_abi = fst (sampleAbi, Some ''0xc0de''), m_address = snd (sampleAbi, Some ''0xc0de''),
               m_name = ''deposit'', m_params = []\<rparr>
           (noOptions\<lparr>gas := Some 21000, gasLimit := Some 42000\<rparr>)] \<and>
      countSend (fst (callFunction sampleEngine sampleNode ''deposit'' [] noOptions None None None)) = 1 \<and>
      snd (callFunction sampleEngine sampleNode ''deposit'' [] noOptions None None None) =
        (case find (\<lambda>e. \<not> isConfirmation e)
                (methodSend sampleNode \<lparr>m_abi = fst (sampleAbi, Some ''0xc0de''),
                   m_address = snd (sampleAbi, Some ''0xc0de''), m_name = ''deposit'', m_params = []\<rparr>
                   (noOptions\<lparr>gas := Some 21000, gasLimit := Some 42000\<rparr>)) of
           None \<Rightarrow> Pending
         | Some (OnReceipt rec) \<Rightarrow> Resolved (Receipt rec)
         | Some (OnConfirmation n rec) \<Rightarrow> Pending
         | Some (OnError err) \<Rightarrow> Rejected err)"
    using t stages by blast
  then show ?thesis
    using prep est send by (simp add: countSend_def)
qed

end
